theory Spec2Isabelle
  imports Complex_Main
begin

section \<open>Values shared by the components\<close>

text \<open>
  A JavaScript \<open>number\<close> is a double; the model writes the real number it stands for.
  One that only ever holds an integer (a rotation in degrees, a millisecond timestamp)
  is an \<open>int\<close>, any other a \<open>real\<close>.  Where the rounding of the arithmetic decides
  what the code does, in the size of the rotated canvas, every operation is the IEEE
  operation on doubles (below); the sizes and positions of the text overlay are written
  with the exact operations.  A string is a \<open>string\<close> whose characters stand for the
  code units up to U+00FF.  A value that may be \<open>null\<close> or \<open>undefined\<close> is an
  \<open>option\<close>.
\<close>

text \<open>\<open>number | string\<close> of \<open>types.ts\<close>.\<close>

datatype num_or_str = Num real | Str string

text \<open>\<open>BillItem\<close>, \<open>BillData\<close> and \<open>ScanHistoryItem\<close> of \<open>types.ts\<close>; the field
  \<open>id\<close> is \<open>item_id\<close> here.\<close>

record BillItem =
  name :: string
  quantity :: num_or_str
  price :: num_or_str
  nameBold :: "bool option"
  nameItalic :: "bool option"
  nameUnderline :: "bool option"
  quantityBold :: "bool option"
  quantityItalic :: "bool option"
  quantityUnderline :: "bool option"
  priceBold :: "bool option"
  priceItalic :: "bool option"
  priceUnderline :: "bool option"

record BillData =
  items :: "BillItem list"
  total :: num_or_str
  totalBold :: "bool option"
  totalItalic :: "bool option"
  totalUnderline :: "bool option"

record ScanHistoryItem =
  item_id :: string
  imageDataUrl :: string
  billData_of :: BillData
  timestamp :: int

text \<open>The two fields of a browser \<open>File\<close> that the components read.\<close>

record File =
  fileName :: string
  mimeType :: string

text \<open>A thrown value, with its \<open>message\<close> property (which may be missing), and
  the settled state of an awaited promise.\<close>

datatype js_exn = Exn "string option"

datatype 'a promise = Resolved 'a | Rejected js_exn

text \<open>The completion of a handler: it returns (\<open>Inr\<close>, with the state it leaves) or
  an error escapes it (\<open>Inl\<close>).  The errors are those the specification names; no
  handler of the source raises one.\<close>

datatype js_error = InvalidInputError | OutOfRangeError | DecodeError

text \<open>Where the code tests a \<open>string | null\<close> for truth, \<open>null\<close> and the empty
  string are both falsy: the model tests for \<open>None\<close> and for \<open>[]\<close>.\<close>

text \<open>\<open>s.split(sep)\<close> for a one-character separator, and \<open>xs[i]\<close>, which is
  \<open>undefined\<close> out of range.\<close>

fun split :: "string \<Rightarrow> char \<Rightarrow> string list" where
  "split [] sep = [[]]"
| "split (c # cs) sep =
     (if c = sep then [] # split cs sep
      else (case split cs sep of
              [] \<Rightarrow> [[c]]
            | x # xs \<Rightarrow> (c # x) # xs))"

definition at_index :: "'a list \<Rightarrow> nat \<Rightarrow> 'a option" where
  "at_index xs i = (if i < length xs then Some (xs ! i) else None)"

section \<open>Arithmetic on doubles\<close>

text \<open>
  A finite double is the real number it stands for.  The result of an arithmetic
  operation is the exact result rounded to the nearest double, a tie going to the even
  significand: a double has 53 significant bits, and the exponent of its leading bit is
  at least \<open>-1022\<close> (below that the spacing stays that of the smallest normal numbers).
  Overflow to an infinity is left out: every number here is far below \<open>2^1024\<close>.
\<close>

definition expo :: "real \<Rightarrow> int" where
  "expo x = max \<lfloor>log 2 \<bar>x\<bar>\<rfloor> (- 1022)"

text \<open>The spacing of the doubles around \<open>x\<close>.\<close>

definition ulp :: "real \<Rightarrow> real" where
  "ulp x = 2 powi (expo x - 52)"

definition round_even :: "real \<Rightarrow> int" where
  "round_even y =
     (let f = \<lfloor>y\<rfloor>; d = y - of_int f
      in if d < 1 / 2 then f
         else if 1 / 2 < d then f + 1
         else if even f then f else f + 1)"

definition rnd :: "real \<Rightarrow> real" where
  "rnd x = (if x = 0 then 0 else of_int (round_even (x / ulp x)) * ulp x)"

text \<open>\<open>x * y\<close>, \<open>x / y\<close> (for a divisor that is not zero) and \<open>x + y\<close> on doubles.\<close>

definition fmul :: "real \<Rightarrow> real \<Rightarrow> real" where
  "fmul x y = rnd (x * y)"

definition fdiv :: "real \<Rightarrow> real \<Rightarrow> real" where
  "fdiv x y = rnd (x / y)"

definition fadd :: "real \<Rightarrow> real \<Rightarrow> real" where
  "fadd x y = rnd (x + y)"

text \<open>The reals that are doubles: a significand of at most 53 bits times a power of two
  that is not below the smallest one.\<close>

definition representable :: "real \<Rightarrow> bool" where
  "representable r = (\<exists>m k. \<bar>m\<bar> \<le> 2 ^ 53 \<and> - 1074 \<le> k \<and> r = of_int m * 2 powi k)"

text \<open>\<open>Math.PI\<close> is the double nearest to \<open>\<pi>\<close>, 3.141592653589793.\<close>

definition Math_PI :: real where
  "Math_PI = 884279719003555 / 281474976710656"

text \<open>
  \<open>Math.cos\<close> and \<open>Math.sin\<close> are approximations that each browser chooses; the model
  takes them as they are given.
\<close>

record JsMath =
  Math_cos :: "real \<Rightarrow> real"
  Math_sin :: "real \<Rightarrow> real"

section \<open>BillScanner: scanning and the scan history\<close>

datatype ScanMode = Bill | Ocr

text \<open>
  What is kept in \<open>localStorage\<close> under a key: the JSON text of a history list
  (\<open>JSON.stringify\<close> followed by \<open>JSON.parse\<close> gives the list back), or a text that
  \<open>JSON.parse\<close> rejects.
\<close>

datatype stored = Json "ScanHistoryItem list" | Malformed string

type_synonym storage = "string \<rightharpoonup> stored"

text \<open>
  The state of the component (its \<open>useState\<close> cells; \<open>image\<close> and \<open>error\<close> are
  \<open>image_st\<close> and \<open>error_st\<close>), together with the browser's \<open>localStorage\<close>.
\<close>

record BillScannerState =
  image_st :: "string option"
  originalImage :: "string option"
  imageFile :: "File option"
  billData :: "BillData option"
  ocrText :: "string option"
  isLoading :: bool
  error_st :: "string option"
  history :: "ScanHistoryItem list"
  scanMode :: ScanMode
  isEditing :: bool
  isHistoryView :: bool
  rotation :: int
  brightness :: real
  tempRotation :: int
  tempBrightness :: real
  selectedHistoryId :: "string option"
  isClearing :: bool
  localStorage :: storage

text \<open>
  What the handlers take from outside the component: the two service calls, the clock
  read by \<open>new Date().toISOString()\<close> and \<open>Date.now()\<close>, and whether
  \<open>localStorage.setItem\<close> throws (the quota is exceeded).
\<close>

record ScanEnv =
  analyzeBill :: "string option \<Rightarrow> string \<Rightarrow> BillData promise"
  extractTextFromImage :: "string option \<Rightarrow> string \<Rightarrow> string promise"
  nowISO :: string
  nowMs :: int
  setItemThrows :: "js_exn option"

definition historyKey :: string where
  "historyKey = ''billScannerHistory''"

text \<open>\<open>localStorage.setItem(key, value)\<close>: the entry is replaced, or the call throws
  and the storage is as before.\<close>

definition setItem :: "ScanEnv \<Rightarrow> storage \<Rightarrow> string \<Rightarrow> stored \<Rightarrow> js_exn + storage" where
  "setItem env ls k v =
     (case setItemThrows env of
        Some e \<Rightarrow> Inl e
      | None \<Rightarrow> Inr (ls(k \<mapsto> v)))"

definition removeItem :: "storage \<Rightarrow> string \<Rightarrow> storage" where
  "removeItem ls k = ls(k := None)"

text \<open>The \<open>catch\<close> block of \<open>handleScan\<close>:
  \<open>setError(err.message || 'Failed to analyze the document. Please try again.')\<close>.\<close>

definition scanCatch :: "js_exn \<Rightarrow> BillScannerState \<Rightarrow> BillScannerState" where
  "scanCatch e st =
     (case e of
        Exn None \<Rightarrow>
          st\<lparr>error_st := Some ''Failed to analyze the document. Please try again.''\<rparr>
      | Exn (Some m) \<Rightarrow>
          st\<lparr>error_st := Some (if m \<noteq> [] then m
                               else ''Failed to analyze the document. Please try again.'')\<rparr>)"

text \<open>\<open>handleScan\<close>, with the awaited service call run to its settled state.\<close>

definition handleScan :: "ScanEnv \<Rightarrow> BillScannerState \<Rightarrow> BillScannerState" where
  "handleScan env st =
     (case (image_st st, imageFile st) of
        (Some img, Some file) \<Rightarrow>
          if img = [] then st\<lparr>error_st := Some ''Please upload an image first.''\<rparr>
          else
            let st1 = st\<lparr>isLoading := True, error_st := None, billData := None,
                         ocrText := None, selectedHistoryId := None\<rparr>;
                base64Data = at_index (split img CHR '','') 1;
                st2 =
                  (case scanMode st of
                     Bill \<Rightarrow>
                       (case analyzeBill env base64Data (mimeType file) of
                          Rejected e \<Rightarrow> scanCatch e st1
                        | Resolved result \<Rightarrow>
                            let newHistoryItem =
                                  \<lparr>item_id = nowISO env, imageDataUrl = img,
                                   billData_of = result, timestamp = nowMs env\<rparr>;
                                updatedHistory = take 10 (newHistoryItem # history st);
                                st3 = st1\<lparr>billData := Some result, history := updatedHistory\<rparr>
                            in (case setItem env (localStorage st3) historyKey (Json updatedHistory) of
                                  Inl e \<Rightarrow> scanCatch e st3
                                | Inr ls \<Rightarrow> st3\<lparr>localStorage := ls\<rparr>))
                   | Ocr \<Rightarrow>
                       (case extractTextFromImage env base64Data (mimeType file) of
                          Rejected e \<Rightarrow> scanCatch e st1
                        | Resolved result \<Rightarrow> st1\<lparr>ocrText := Some result\<rparr>))
            in st2\<lparr>isLoading := False\<rparr>
      | _ \<Rightarrow> st\<lparr>error_st := Some ''Please upload an image first.''\<rparr>)"

text \<open>The effect run once when the component mounts: the stored history is read
  back; a text that does not parse is removed.\<close>

definition loadHistory :: "BillScannerState \<Rightarrow> BillScannerState" where
  "loadHistory st =
     (case localStorage st historyKey of
        None \<Rightarrow> st
      | Some (Json h) \<Rightarrow> st\<lparr>history := h\<rparr>
      | Some (Malformed s) \<Rightarrow>
          if s = [] then st
          else st\<lparr>localStorage := removeItem (localStorage st) historyKey\<rparr>)"

text \<open>\<open>handleClearHistory\<close>, and the callback it schedules with \<open>setTimeout\<close>.\<close>

definition handleClearHistory :: "BillScannerState \<Rightarrow> BillScannerState" where
  "handleClearHistory st =
     (if length (history st) = 0 then st else st\<lparr>isClearing := True\<rparr>)"

definition clearHistoryTimeout :: "BillScannerState \<Rightarrow> BillScannerState" where
  "clearHistoryTimeout st =
     st\<lparr>history := [], localStorage := removeItem (localStorage st) historyKey,
        isClearing := False\<rparr>"

text \<open>The operations of the component that touch the history or its stored copy.\<close>

datatype HistoryOp = Mount | Scan ScanEnv | ClearHistory | ClearHistoryFired

fun historyStep :: "HistoryOp \<Rightarrow> BillScannerState \<Rightarrow> BillScannerState" where
  "historyStep Mount st = loadHistory st"
| "historyStep (Scan env) st = handleScan env st"
| "historyStep ClearHistory st = handleClearHistory st"
| "historyStep ClearHistoryFired st = clearHistoryTimeout st"

text \<open>The stored history has at most ten entries (no entry, or a text that is not a
  history, holds none).\<close>

fun storedLength :: "stored option \<Rightarrow> nat" where
  "storedLength (Some (Json h)) = length h"
| "storedLength _ = 0"

definition storedHistoryCapped :: "BillScannerState \<Rightarrow> bool" where
  "storedHistoryCapped st = (storedLength (localStorage st historyKey) \<le> 10)"

section \<open>The canvas calls made by the components\<close>

text \<open>
  The components compute no pixel themselves: they set the state of a 2D canvas context
  and ask it to draw.  The model keeps what the code decides: the size of the canvas,
  the state of the context, and the drawing calls in the order they are made, each with
  the state of the context at the time of the call.  Rasterising, filtering and encoding
  are the browser's.
\<close>

record Sized =
  width :: nat
  height :: nat

text \<open>A decoded \<open>Image\<close> element: its natural size and the source it was loaded from.\<close>

record HTMLImage = Sized +
  src :: string

text \<open>The functions of a \<open>ctx.filter\<close> list, in the order they are written.\<close>

datatype FilterFn = Brightness real | Contrast real | Saturate real

datatype Transform = Translate real real | Rotate real

text \<open>\<open>ctx.font = `${size}px ${family}`\<close>.\<close>

datatype Font = Font real string

datatype TextAlign = AlignStart | AlignCenter

datatype TextBaseline = BaselineAlphabetic | BaselineTop | BaselineMiddle | BaselineBottom

record DrawState =
  filter_c :: "FilterFn list"
  transform :: "Transform list"
  font :: Font
  fillStyle :: string
  strokeStyle :: string
  lineWidth :: real
  textAlign :: TextAlign
  textBaseline :: TextBaseline

datatype DrawCall =
    DrawImage HTMLImage real real
  | StrokeText string real real
  | FillText string real real

record Canvas = Sized +
  ctx :: DrawState
  drawn :: "(DrawCall \<times> DrawState) list"

definition defaultDrawState :: DrawState where
  "defaultDrawState =
     \<lparr>filter_c = [], transform = [], font = Font 10 ''sans-serif'',
      fillStyle = ''#000000'', strokeStyle = ''#000000'', lineWidth = 1,
      textAlign = AlignStart, textBaseline = BaselineAlphabetic\<rparr>"

text \<open>\<open>document.createElement('canvas')\<close>.\<close>

definition createCanvas :: Canvas where
  "createCanvas = \<lparr>width = 300, height = 150, ctx = defaultDrawState, drawn = []\<rparr>"

text \<open>
  A canvas dimension is an \<open>unsigned long\<close>: the number assigned to it loses its
  fractional part (towards zero) and is taken modulo \<open>2^32\<close>.
\<close>

definition to_unsigned_long :: "real \<Rightarrow> nat" where
  "to_unsigned_long x =
     nat ((if x < 0 then - \<lfloor>- x\<rfloor> else \<lfloor>x\<rfloor>) mod 2 ^ 32)"

text \<open>Assigning \<open>canvas.width\<close> or \<open>canvas.height\<close> also clears the canvas and
  resets its context.\<close>

definition setWidth :: "real \<Rightarrow> Canvas \<Rightarrow> Canvas" where
  "setWidth v c = c\<lparr>width := to_unsigned_long v, ctx := defaultDrawState, drawn := []\<rparr>"

definition setHeight :: "real \<Rightarrow> Canvas \<Rightarrow> Canvas" where
  "setHeight v c = c\<lparr>height := to_unsigned_long v, ctx := defaultDrawState, drawn := []\<rparr>"

definition setFilter :: "FilterFn list \<Rightarrow> Canvas \<Rightarrow> Canvas" where
  "setFilter fs c = c\<lparr>ctx := (ctx c)\<lparr>filter_c := fs\<rparr>\<rparr>"

definition translate :: "real \<Rightarrow> real \<Rightarrow> Canvas \<Rightarrow> Canvas" where
  "translate x y c = c\<lparr>ctx := (ctx c)\<lparr>transform := transform (ctx c) @ [Translate x y]\<rparr>\<rparr>"

definition rotate_c :: "real \<Rightarrow> Canvas \<Rightarrow> Canvas" where
  "rotate_c a c = c\<lparr>ctx := (ctx c)\<lparr>transform := transform (ctx c) @ [Rotate a]\<rparr>\<rparr>"

definition setFont :: "Font \<Rightarrow> Canvas \<Rightarrow> Canvas" where
  "setFont f c = c\<lparr>ctx := (ctx c)\<lparr>font := f\<rparr>\<rparr>"

definition setFillStyle :: "string \<Rightarrow> Canvas \<Rightarrow> Canvas" where
  "setFillStyle s c = c\<lparr>ctx := (ctx c)\<lparr>fillStyle := s\<rparr>\<rparr>"

definition setStrokeStyle :: "string \<Rightarrow> Canvas \<Rightarrow> Canvas" where
  "setStrokeStyle s c = c\<lparr>ctx := (ctx c)\<lparr>strokeStyle := s\<rparr>\<rparr>"

definition setLineWidth :: "real \<Rightarrow> Canvas \<Rightarrow> Canvas" where
  "setLineWidth v c = c\<lparr>ctx := (ctx c)\<lparr>lineWidth := v\<rparr>\<rparr>"

definition setTextAlign :: "TextAlign \<Rightarrow> Canvas \<Rightarrow> Canvas" where
  "setTextAlign a c = c\<lparr>ctx := (ctx c)\<lparr>textAlign := a\<rparr>\<rparr>"

definition setTextBaseline :: "TextBaseline \<Rightarrow> Canvas \<Rightarrow> Canvas" where
  "setTextBaseline b c = c\<lparr>ctx := (ctx c)\<lparr>textBaseline := b\<rparr>\<rparr>"

definition draw :: "DrawCall \<Rightarrow> Canvas \<Rightarrow> Canvas" where
  "draw d c = c\<lparr>drawn := drawn c @ [(d, ctx c)]\<rparr>"

definition drawImage :: "HTMLImage \<Rightarrow> real \<Rightarrow> real \<Rightarrow> Canvas \<Rightarrow> Canvas" where
  "drawImage img dx dy c = draw (DrawImage img dx dy) c"

definition strokeText :: "string \<Rightarrow> real \<Rightarrow> real \<Rightarrow> Canvas \<Rightarrow> Canvas" where
  "strokeText t x y c = draw (StrokeText t x y) c"

definition fillText :: "string \<Rightarrow> real \<Rightarrow> real \<Rightarrow> Canvas \<Rightarrow> Canvas" where
  "fillText t x y c = draw (FillText t x y) c"

text \<open>
  What the browser decides: whether the image behind a source loads (\<open>onload\<close> with
  the decoded image) or not, whether a 2D context is to be had, the data URL that
  \<open>canvas.toDataURL(type)\<close> encodes, and its \<open>Math.cos\<close> and \<open>Math.sin\<close>.
\<close>

record Browser =
  loadImage :: "string \<Rightarrow> HTMLImage option"
  getContext2d :: bool
  toDataURL :: "Canvas \<Rightarrow> string \<Rightarrow> string"
  jsMath :: JsMath

section \<open>BillScanner: rotation and brightness\<close>

text \<open>\<open>const rad = tempRotation * Math.PI / 180\<close>: a product and a quotient on
  doubles.  The rotation is a whole number of degrees, far below \<open>2^53\<close>, so it is a
  double itself.\<close>

definition rad :: "int \<Rightarrow> real" where
  "rad tempRot = fdiv (fmul (real_of_int tempRot) Math_PI) 180"

text \<open>\<open>newWidth\<close> and \<open>newHeight\<close> as the code computes them; \<open>Math.abs\<close> is exact.\<close>

definition newWidth :: "JsMath \<Rightarrow> HTMLImage \<Rightarrow> int \<Rightarrow> real" where
  "newWidth m img tempRot =
     (let w = real (width img);
          h = real (height img)
      in fadd \<bar>fmul w (Math_cos m (rad tempRot))\<bar> \<bar>fmul h (Math_sin m (rad tempRot))\<bar>)"

definition newHeight :: "JsMath \<Rightarrow> HTMLImage \<Rightarrow> int \<Rightarrow> real" where
  "newHeight m img tempRot =
     (let w = real (width img);
          h = real (height img)
      in fadd \<bar>fmul h (Math_cos m (rad tempRot))\<bar> \<bar>fmul w (Math_sin m (rad tempRot))\<bar>)"

text \<open>The body of \<open>img.onload\<close> in \<open>handleSaveChanges\<close>, up to the last drawing
  call.\<close>

definition BillScanner_onload :: "JsMath \<Rightarrow> HTMLImage \<Rightarrow> int \<Rightarrow> real \<Rightarrow> Canvas" where
  "BillScanner_onload m img tempRot tempBri =
     (let canvas = createCanvas;
          w = real (width img);
          h = real (height img);
          c1 = setWidth (newWidth m img tempRot) canvas;
          c2 = setHeight (newHeight m img tempRot) c1;
          c3 = setFilter [Brightness tempBri] c2;
          c4 = translate (fdiv (real (width c3)) 2) (fdiv (real (height c3)) 2) c3;
          c5 = rotate_c (rad tempRot) c4
      in drawImage img (fdiv (- w) 2) (fdiv (- h) 2) c5)"

text \<open>
  The two rotation buttons: \<open>setTempRotation(r => (r - 90) % 360)\<close> and
  \<open>setTempRotation(r => (r + 90) % 360)\<close>.  The remainder \<open>%\<close> has the sign of its
  left operand.  Starting from \<open>0\<close>, they are the only source of a rotation.
\<close>

definition js_rem :: "int \<Rightarrow> int \<Rightarrow> int" where
  "js_rem a b = sgn a * (\<bar>a\<bar> mod \<bar>b\<bar>)"

definition rotateMinus90 :: "BillScannerState \<Rightarrow> BillScannerState" where
  "rotateMinus90 st = st\<lparr>tempRotation := js_rem (tempRotation st - 90) 360\<rparr>"

definition rotatePlus90 :: "BillScannerState \<Rightarrow> BillScannerState" where
  "rotatePlus90 st = st\<lparr>tempRotation := js_rem (tempRotation st + 90) 360\<rparr>"

definition buttonRotation :: "int \<Rightarrow> bool" where
  "buttonRotation r = (r \<in> {- 270, - 180, - 90, 0, 90, 180, 270})"

text \<open>
  What the size of the rotated canvas needs of the browser at a rotation: where the exact
  cosine or sine of the rotation is \<open>1\<close> or \<open>-1\<close>, \<open>Math.cos\<close> or \<open>Math.sin\<close> of the
  computed angle is \<open>1\<close> or \<open>-1\<close> too; where it is \<open>0\<close>, theirs is at most \<open>2^-33\<close>
  in size.
\<close>

definition accurateAt :: "JsMath \<Rightarrow> int \<Rightarrow> bool" where
  "accurateAt m tempRot =
     (let x = rad tempRot;
          \<theta> = real_of_int tempRot * pi / 180
      in (\<bar>cos \<theta>\<bar> = 1 \<longrightarrow> \<bar>Math_cos m x\<bar> = 1) \<and>
         (\<bar>sin \<theta>\<bar> = 1 \<longrightarrow> \<bar>Math_sin m x\<bar> = 1) \<and>
         (cos \<theta> = 0 \<longrightarrow> \<bar>Math_cos m x\<bar> \<le> 1 / 2 ^ 33) \<and>
         (sin \<theta> = 0 \<longrightarrow> \<bar>Math_sin m x\<bar> \<le> 1 / 2 ^ 33))"

text \<open>\<open>handleSaveChanges\<close> of the scanner, with the image load run to its end.\<close>

definition BillScanner_handleSaveChanges ::
  "Browser \<Rightarrow> BillScannerState \<Rightarrow> js_error + BillScannerState" where
  "BillScanner_handleSaveChanges br st =
     (case originalImage st of
        None \<Rightarrow> Inr st
      | Some url \<Rightarrow>
          if url = [] then Inr st
          else
            (case loadImage br url of
               None \<Rightarrow> Inr st
             | Some img \<Rightarrow>
                 if \<not> getContext2d br then Inr st
                 else
                   let canvas = BillScanner_onload (jsMath br) img (tempRotation st)
                                  (tempBrightness st);
                       dataUrl = toDataURL br canvas ''image/jpeg''
                   in Inr (st\<lparr>image_st := Some dataUrl, rotation := tempRotation st,
                              brightness := tempBrightness st, isEditing := False\<rparr>)))"

section \<open>ImageEditor: contrast and saturation\<close>

text \<open>The cells of the editor that \<open>handleSaveChanges\<close> reads or writes (\<open>image\<close>,
  \<open>originalImage\<close>, \<open>imageFile\<close> and \<open>isEditing\<close> carry the prefix \<open>ed_\<close>).\<close>

record ImageEditorState =
  ed_image :: "string option"
  ed_originalImage :: "string option"
  ed_imageFile :: "File option"
  ed_isEditing :: bool
  contrast :: real
  saturation :: real
  tempContrast :: real
  tempSaturation :: real

definition ImageEditor_onload :: "HTMLImage \<Rightarrow> real \<Rightarrow> real \<Rightarrow> Canvas" where
  "ImageEditor_onload img tempCon tempSat =
     (let canvas = createCanvas;
          c1 = setWidth (real (width img)) canvas;
          c2 = setHeight (real (height img)) c1;
          c3 = setFilter [Contrast tempCon, Saturate tempSat] c2
      in drawImage img 0 0 c3)"

definition ImageEditor_handleSaveChanges ::
  "Browser \<Rightarrow> ImageEditorState \<Rightarrow> js_error + ImageEditorState" where
  "ImageEditor_handleSaveChanges br st =
     (case ed_originalImage st of
        None \<Rightarrow> Inr st
      | Some url \<Rightarrow>
          if url = [] then Inr st
          else
            (case loadImage br url of
               None \<Rightarrow> Inr st
             | Some img \<Rightarrow>
                 if \<not> getContext2d br then Inr st
                 else
                   let canvas = ImageEditor_onload img (tempContrast st) (tempSaturation st);
                       ty = (case ed_imageFile st of
                               None \<Rightarrow> ''image/jpeg''
                             | Some f \<Rightarrow> if mimeType f = [] then ''image/jpeg'' else mimeType f);
                       dataUrl = toDataURL br canvas ty
                   in Inr (st\<lparr>ed_image := Some dataUrl, contrast := tempContrast st,
                              saturation := tempSaturation st, ed_isEditing := False\<rparr>)))"

section \<open>ImageGenerator: the text overlay\<close>

datatype TextPosition = Top | Middle | Bottom

text \<open>The cells of the generator that the overlay effect reads or writes.\<close>

record ImageGeneratorState =
  generatedImage :: "string option"
  imageWithText :: "string option"
  overlayText :: string
  fontFamily :: string
  fontSize :: real
  fontColor :: string
  strokeColor :: string
  textPosition :: TextPosition

text \<open>
  \<open>String.prototype.trim\<close> removes white space and line terminators from both ends;
  among the code units up to U+00FF these are tab, line feed, vertical tab, form feed,
  carriage return, space and no-break space.
\<close>

definition isWhiteSpace :: "char \<Rightarrow> bool" where
  "isWhiteSpace c = (of_char c \<in> {9, 10, 11, 12, 13, 32, 160 :: nat})"

definition trim :: "string \<Rightarrow> string" where
  "trim s = rev (dropWhile isWhiteSpace (rev (dropWhile isWhiteSpace s)))"

text \<open>The body of \<open>img.onload\<close> in the overlay effect, up to the last drawing call.\<close>

definition ImageGenerator_onload :: "HTMLImage \<Rightarrow> ImageGeneratorState \<Rightarrow> Canvas" where
  "ImageGenerator_onload img st =
     (let canvas = createCanvas;
          c1 = setWidth (real (width img)) canvas;
          c2 = setHeight (real (height img)) c1;
          c3 = drawImage img 0 0 c2
      in if trim (overlayText st) \<noteq> [] then
           let c4 = setFont (Font (fontSize st) (fontFamily st)) c3;
               c5 = setFillStyle (fontColor st) c4;
               c6 = setStrokeStyle (strokeColor st) c5;
               c7 = setLineWidth (fontSize st / 20) c6;
               c8 = setTextAlign AlignCenter c7;
               x = real (width c8) / 2;
               margin = fontSize st;
               (c9, y) =
                 (case textPosition st of
                    Top \<Rightarrow> (setTextBaseline BaselineTop c8, margin)
                  | Bottom \<Rightarrow> (setTextBaseline BaselineBottom c8, real (height c8) - margin)
                  | Middle \<Rightarrow> (setTextBaseline BaselineMiddle c8, real (height c8) / 2));
               c10 = strokeText (overlayText st) x y c9
           in fillText (overlayText st) x y c10
         else c3)"


subsection \<open>A concrete session of the scanner\<close>

definition exampleBillData :: BillData where
  "exampleBillData =
     \<lparr>items = [\<lparr>name = ''Tea'', quantity = Num 2, price = Str ''3.50 EUR'',
                nameBold = None, nameItalic = None, nameUnderline = None,
                quantityBold = None, quantityItalic = None, quantityUnderline = None,
                priceBold = None, priceItalic = None, priceUnderline = None\<rparr>],
      total = Num 7, totalBold = None, totalItalic = None, totalUnderline = None\<rparr>"

definition exampleUrl :: string where
  "exampleUrl = ''data:image/png;base64,iVBORw0KGgo=''"

definition exampleItem :: "int \<Rightarrow> ScanHistoryItem" where
  "exampleItem t =
     \<lparr>item_id = ''2024-05-01T10:00:00.000Z'', imageDataUrl = exampleUrl,
      billData_of = exampleBillData, timestamp = t\<rparr>"

definition exampleHistory :: "ScanHistoryItem list" where
  "exampleHistory = map exampleItem [10, 9, 8, 7, 6, 5, 4, 3, 2, 1]"

definition exampleState :: BillScannerState where
  "exampleState =
     \<lparr>image_st = Some exampleUrl, originalImage = Some exampleUrl,
      imageFile = Some \<lparr>fileName = ''bill.png'', mimeType = ''image/png''\<rparr>,
      billData = None, ocrText = None, isLoading = False, error_st = None,
      history = exampleHistory, scanMode = Bill, isEditing = False,
      isHistoryView = False, rotation = 0, brightness = 1, tempRotation = 0,
      tempBrightness = 1, selectedHistoryId = None, isClearing = False,
      localStorage = [historyKey \<mapsto> Json exampleHistory]\<rparr>"

definition exampleEnv :: ScanEnv where
  "exampleEnv =
     \<lparr>analyzeBill = (\<lambda>_ _. Resolved exampleBillData),
      extractTextFromImage = (\<lambda>_ _. Resolved ''TOTAL 7''),
      nowISO = ''2024-05-02T09:30:00.000Z'', nowMs = 11, setItemThrows = None\<rparr>"

subsection \<open>Concrete images, a browser and an overlay\<close>

definition exampleImage :: HTMLImage where
  "exampleImage = \<lparr>width = 100, height = 200, src = exampleUrl\<rparr>"

definition squareImage :: HTMLImage where
  "squareImage = \<lparr>width = 500, height = 500, src = exampleUrl\<rparr>"

text \<open>
  \<open>Math.cos\<close> and \<open>Math.sin\<close> at the angles that \<open>rad\<close> computes for the rotations
  of the buttons: \<open>1.5707963267948966\<close>, \<open>3.141592653589793\<close>, \<open>4.71238898038469\<close> and
  their negatives.  The values are \<open>6.123233995736766e-17\<close>, \<open>-1\<close> and
  \<open>-1.8369701987210297e-16\<close> for the cosine and \<open>1\<close>, \<open>1.2246467991473532e-16\<close> and
  \<open>-1\<close> for the sine.
\<close>

definition exampleCos :: "real \<Rightarrow> real" where
  "exampleCos x =
     (if \<bar>x\<bar> = 884279719003555 / 562949953421312
        then 4967757600021511 / 81129638414606681695789005144064
      else if \<bar>x\<bar> = 884279719003555 / 281474976710656 then - 1
      else if \<bar>x\<bar> = 2652839157010665 / 562949953421312
        then - (3725818200016133 / 20282409603651670423947251286016)
      else 1)"

definition exampleSin :: "real \<Rightarrow> real" where
  "exampleSin x =
     sgn x *
     (if \<bar>x\<bar> = 884279719003555 / 562949953421312 then 1
      else if \<bar>x\<bar> = 884279719003555 / 281474976710656
        then 4967757600021511 / 40564819207303340847894502572032
      else if \<bar>x\<bar> = 2652839157010665 / 562949953421312 then - 1
      else 0)"

definition exampleMath :: JsMath where
  "exampleMath = \<lparr>Math_cos = exampleCos, Math_sin = exampleSin\<rparr>"

definition exampleBrowser :: Browser where
  "exampleBrowser =
     \<lparr>loadImage = (\<lambda>url. if url = exampleUrl then Some squareImage else None),
      getContext2d = True,
      toDataURL = (\<lambda>c ty. ''data:'' @ ty @ '';base64,''),
      jsMath = exampleMath\<rparr>"

definition exampleOverlay :: ImageGeneratorState where
  "exampleOverlay =
     \<lparr>generatedImage = Some exampleUrl, imageWithText = None, overlayText = ''HI'',
      fontFamily = ''Impact'', fontSize = 64, fontColor = ''#FFFFFF'',
      strokeColor = ''#000000'', textPosition = Top\<rparr>"

definition exampleEditor :: ImageEditorState where
  "exampleEditor =
     \<lparr>ed_image = None, ed_originalImage = None, ed_imageFile = None, ed_isEditing = True,
      contrast = 1, saturation = 1, tempContrast = 3 / 2, tempSaturation = 1\<rparr>"

section \<open>Properties of the scan history\<close>

lemma handleScan_storage_cases:
  "localStorage (handleScan env st) = localStorage st \<or>
   (\<exists>item. localStorage (handleScan env st) =
      (localStorage st)(historyKey \<mapsto> Json (take 10 (item # history st))))"
  by (auto simp add: handleScan_def scanCatch_def setItem_def Let_def
      split: option.split promise.split js_exn.split prod.split ScanMode.split)

lemma loadHistory_storage_cases:
  "localStorage (loadHistory st) = localStorage st \<or>
   localStorage (loadHistory st) = (localStorage st)(historyKey := None)"
  by (simp add: loadHistory_def removeItem_def split: option.split stored.split)

lemma historyStep_storage_cases:
  "localStorage (historyStep op st) = localStorage st \<or>
   localStorage (historyStep op st) = (localStorage st)(historyKey := None) \<or>
   (\<exists>item. localStorage (historyStep op st) =
      (localStorage st)(historyKey \<mapsto> Json (take 10 (item # history st))))"
proof (cases op)
  case Mount
  then show ?thesis using loadHistory_storage_cases [of st] by auto
next
  case (Scan env)
  then show ?thesis using handleScan_storage_cases [of env st] by auto
next
  case ClearHistory
  then show ?thesis by (simp add: handleClearHistory_def)
next
  case ClearHistoryFired
  then show ?thesis by (simp add: clearHistoryTimeout_def removeItem_def)
qed

lemma historyStep_capped:
  "storedHistoryCapped st \<or> localStorage (historyStep op st) \<noteq> localStorage st \<Longrightarrow>
   storedHistoryCapped (historyStep op st)"
  using historyStep_storage_cases [of op st]
  by (auto simp add: storedHistoryCapped_def)

lemma handleScan_bill_resolved:
  assumes "image_st st = Some img" and "img \<noteq> []" and "imageFile st = Some imgFile"
    and "scanMode st = Bill"
    and "analyzeBill env (at_index (split img CHR '','') 1) (mimeType imgFile) = Resolved result"
    and "setItemThrows env = None"
  shows "handleScan env st =
     st\<lparr>isLoading := False, error_st := None, billData := Some result, ocrText := None,
        selectedHistoryId := None,
        history := take 10 (\<lparr>item_id = nowISO env, imageDataUrl = img,
                              billData_of = result, timestamp = nowMs env\<rparr> # history st),
        localStorage := (localStorage st)(historyKey \<mapsto>
           Json (take 10 (\<lparr>item_id = nowISO env, imageDataUrl = img,
                              billData_of = result, timestamp = nowMs env\<rparr> # history st)))\<rparr>"
  using assms by (simp add: handleScan_def setItem_def Let_def)

text \<open>
  Claim C9.  A bill scan whose analysis resolves and whose write to the storage succeeds
  puts the new entry (the scanned image, the extracted data, the time) in front of the
  history, keeps the first ten entries, and replaces the whole entry stored under the
  key \<open>billScannerHistory\<close> by that list, leaving every other key alone.  Whatever an
  operation on the history writes to the storage, the stored history has at most ten
  entries afterwards, and an operation that does not write keeps the bound.
\<close>

theorem scan_history_capped:
  "(storedHistoryCapped st \<longrightarrow> storedHistoryCapped (historyStep op st)) \<and>
   (localStorage (historyStep op st) \<noteq> localStorage st \<longrightarrow>
      storedHistoryCapped (historyStep op st)) \<and>
   (image_st st = Some img \<and> img \<noteq> [] \<and> imageFile st = Some imgFile \<and> scanMode st = Bill \<and>
    analyzeBill env (at_index (split img CHR '','') 1) (mimeType imgFile) = Resolved result \<and>
    setItemThrows env = None \<longrightarrow>
      history (handleScan env st) =
        take 10 (\<lparr>item_id = nowISO env, imageDataUrl = img,
                   billData_of = result, timestamp = nowMs env\<rparr> # history st) \<and>
      localStorage (handleScan env st) =
        (localStorage st)(historyKey \<mapsto> Json (history (handleScan env st))) \<and>
      length (history (handleScan env st)) \<le> 10)"
proof (intro conjI impI)
  assume "storedHistoryCapped st"
  then show "storedHistoryCapped (historyStep op st)"
    using historyStep_capped [of st op] by simp
next
  assume "localStorage (historyStep op st) \<noteq> localStorage st"
  then show "storedHistoryCapped (historyStep op st)"
    using historyStep_capped [of st op] by simp
next
  assume a: "image_st st = Some img \<and> img \<noteq> [] \<and> imageFile st = Some imgFile \<and> scanMode st = Bill \<and>
    analyzeBill env (at_index (split img CHR '','') 1) (mimeType imgFile) = Resolved result \<and>
    setItemThrows env = None"
  then have e: "handleScan env st =
     st\<lparr>isLoading := False, error_st := None, billData := Some result, ocrText := None,
        selectedHistoryId := None,
        history := take 10 (\<lparr>item_id = nowISO env, imageDataUrl = img,
                              billData_of = result, timestamp = nowMs env\<rparr> # history st),
        localStorage := (localStorage st)(historyKey \<mapsto>
           Json (take 10 (\<lparr>item_id = nowISO env, imageDataUrl = img,
                              billData_of = result, timestamp = nowMs env\<rparr> # history st)))\<rparr>"
    using handleScan_bill_resolved [of st img imgFile env result] by simp
  show "history (handleScan env st) =
        take 10 (\<lparr>item_id = nowISO env, imageDataUrl = img,
                   billData_of = result, timestamp = nowMs env\<rparr> # history st)"
    by (simp add: e)
  show "localStorage (handleScan env st) =
        (localStorage st)(historyKey \<mapsto> Json (history (handleScan env st)))"
    by (simp add: e)
  show "length (history (handleScan env st)) \<le> 10"
    by (simp add: e)
qed

theorem scan_history_capped_witness:
  "storedHistoryCapped exampleState \<and>
   storedHistoryCapped (historyStep (Scan exampleEnv) exampleState) \<and>
   localStorage (historyStep (Scan exampleEnv) exampleState) \<noteq> localStorage exampleState \<and>
   history (handleScan exampleEnv exampleState) =
     \<lparr>item_id = ''2024-05-02T09:30:00.000Z'', imageDataUrl = exampleUrl,
      billData_of = exampleBillData, timestamp = 11\<rparr> #
     map exampleItem [10, 9, 8, 7, 6, 5, 4, 3, 2] \<and>
   localStorage (handleScan exampleEnv exampleState) historyKey =
     Some (Json (history (handleScan exampleEnv exampleState))) \<and>
   length (history (handleScan exampleEnv exampleState)) = 10"
proof -
  have cap: "storedHistoryCapped exampleState"
    by (simp add: storedHistoryCapped_def exampleState_def exampleHistory_def)
  have pre: "image_st exampleState = Some exampleUrl \<and> exampleUrl \<noteq> [] \<and>
     imageFile exampleState = Some \<lparr>fileName = ''bill.png'', mimeType = ''image/png''\<rparr> \<and>
     scanMode exampleState = Bill \<and>
     analyzeBill exampleEnv (at_index (split exampleUrl CHR '','') 1)
       (mimeType \<lparr>fileName = ''bill.png'', mimeType = ''image/png''\<rparr>) = Resolved exampleBillData \<and>
     setItemThrows exampleEnv = None"
    by (simp add: exampleState_def exampleEnv_def exampleUrl_def)
  note t = scan_history_capped [where st = exampleState and op = "Scan exampleEnv"
      and img = exampleUrl and imgFile = "\<lparr>fileName = ''bill.png'', mimeType = ''image/png''\<rparr>"
      and env = exampleEnv and result = exampleBillData]
  from t pre have concl:
    "history (handleScan exampleEnv exampleState) =
       take 10 (\<lparr>item_id = nowISO exampleEnv, imageDataUrl = exampleUrl,
                  billData_of = exampleBillData, timestamp = nowMs exampleEnv\<rparr> #
                history exampleState)"
    "localStorage (handleScan exampleEnv exampleState) =
       (localStorage exampleState)(historyKey \<mapsto> Json (history (handleScan exampleEnv exampleState)))"
    "storedHistoryCapped exampleState \<longrightarrow> storedHistoryCapped (historyStep (Scan exampleEnv) exampleState)"
    by blast+
  have h: "history (handleScan exampleEnv exampleState) =
     \<lparr>item_id = ''2024-05-02T09:30:00.000Z'', imageDataUrl = exampleUrl,
      billData_of = exampleBillData, timestamp = 11\<rparr> #
     map exampleItem [10, 9, 8, 7, 6, 5, 4, 3, 2]"
    unfolding concl(1) by (simp add: exampleState_def exampleEnv_def exampleHistory_def)
  have ne: "localStorage (historyStep (Scan exampleEnv) exampleState) \<noteq> localStorage exampleState"
  proof
    assume "localStorage (historyStep (Scan exampleEnv) exampleState) = localStorage exampleState"
    then have "localStorage (handleScan exampleEnv exampleState) historyKey =
        localStorage exampleState historyKey" by simp
    then have "history (handleScan exampleEnv exampleState) = exampleHistory"
      unfolding concl(2) by (simp add: exampleState_def)
    then show False
      unfolding h by (simp add: exampleHistory_def exampleItem_def)
  qed
  have len: "length (history (handleScan exampleEnv exampleState)) = 10"
    unfolding h by simp
  have sto: "localStorage (handleScan exampleEnv exampleState) historyKey =
     Some (Json (history (handleScan exampleEnv exampleState)))"
    using concl(2) by (metis fun_upd_same)
  show ?thesis using concl(3) cap h ne len sto by simp
qed

text \<open>
  Claim C10.  A scan in OCR mode changes neither the history list nor the storage: both
  are the same before and after, whether the text extraction resolves or fails.
\<close>

theorem ocr_scan_keeps_history:
  "scanMode st = Ocr \<Longrightarrow>
   history (handleScan env st) = history st \<and>
   localStorage (handleScan env st) = localStorage st"
  by (simp add: handleScan_def scanCatch_def Let_def
      split: option.split promise.split js_exn.split prod.split)

theorem ocr_scan_keeps_history_witness:
  "scanMode (exampleState\<lparr>scanMode := Ocr\<rparr>) = Ocr \<and>
   history (handleScan exampleEnv (exampleState\<lparr>scanMode := Ocr\<rparr>)) = exampleHistory \<and>
   localStorage (handleScan exampleEnv (exampleState\<lparr>scanMode := Ocr\<rparr>)) =
     [historyKey \<mapsto> Json exampleHistory]"
  using ocr_scan_keeps_history [of "exampleState\<lparr>scanMode := Ocr\<rparr>" exampleEnv]
  by (simp add: exampleState_def)

section \<open>Properties of the arithmetic on doubles\<close>

text \<open>
  Rounding gives a double that is nearest to the exact result: no double is closer.  So
  a double is its own rounding, and the rounding of a number between two doubles lies
  between them.
\<close>

lemma round_even_cases: "round_even y = \<lfloor>y\<rfloor> \<and> y - of_int \<lfloor>y\<rfloor> \<le> 1 / 2 \<or>
    round_even y = \<lfloor>y\<rfloor> + 1 \<and> 1 / 2 \<le> y - of_int \<lfloor>y\<rfloor>"
  by (simp add: round_even_def Let_def)

lemma round_even_nearest: "\<bar>of_int (round_even y) - y\<bar> \<le> \<bar>of_int m - y\<bar>"
proof -
  let ?f = "\<lfloor>y\<rfloor>"
  have f1: "of_int ?f \<le> y" and f2: "y < of_int ?f + 1" by linarith+
  consider "m \<le> ?f" | "?f + 1 \<le> m" by linarith
  then show ?thesis
  proof cases
    case 1
    then have "of_int m \<le> (of_int ?f :: real)" by simp
    with round_even_cases [of y] f1 f2 show ?thesis by auto
  next
    case 2
    then have "(of_int ?f :: real) + 1 \<le> of_int m" by (metis of_int_1 of_int_add of_int_le_iff)
    with round_even_cases [of y] f1 f2 show ?thesis by auto
  qed
qed

lemma round_even_unique:
  assumes "\<bar>y - of_int n\<bar> < 1 / 2"
  shows "round_even y = n"
proof -
  have "\<bar>of_int (round_even y) - y\<bar> \<le> \<bar>of_int n - y\<bar>" by (rule round_even_nearest)
  with assms have "\<bar>(of_int (round_even y) :: real) - of_int n\<bar> < 1" by linarith
  then have "\<bar>(of_int (round_even y - n) :: real)\<bar> < 1" by simp
  then have "\<bar>round_even y - n\<bar> < 1" by (metis of_int_abs of_int_less_1_iff)
  then show ?thesis by simp
qed

lemma ulp_pos: "0 < ulp x"
  by (simp add: ulp_def)

lemma expo_lower: "- 1022 \<le> expo x"
  by (simp add: expo_def)

lemma expo_normal:
  assumes "x \<noteq> 0" and "- 1022 < expo x"
  shows "2 powi expo x \<le> \<bar>x\<bar>"
proof -
  from assms(2) have e: "expo x = \<lfloor>log 2 \<bar>x\<bar>\<rfloor>" by (simp add: expo_def max_def split: if_splits)
  from assms(1) have p: "0 < \<bar>x\<bar>" by simp
  have "of_int \<lfloor>log 2 \<bar>x\<bar>\<rfloor> \<le> log 2 \<bar>x\<bar>" by simp
  then have "2 powr of_int \<lfloor>log 2 \<bar>x\<bar>\<rfloor> \<le> \<bar>x\<bar>"
    using p by (simp add: powr_le_iff)
  then show ?thesis unfolding e by (simp add: powr_real_of_int')
qed

lemma rnd_multiple:
  assumes "x \<noteq> 0"
  shows "\<bar>rnd x - x\<bar> \<le> \<bar>of_int M * ulp x - x\<bar>"
proof -
  let ?q = "ulp x"
  have q: "0 < ?q" by (rule ulp_pos)
  have a: "rnd x - x = (of_int (round_even (x / ?q)) - x / ?q) * ?q"
    using assms q by (simp add: rnd_def field_simps)
  have b: "of_int M * ?q - x = (of_int M - x / ?q) * ?q"
    using q by (simp add: field_simps)
  have "\<bar>of_int (round_even (x / ?q)) - x / ?q\<bar> \<le> \<bar>of_int M - x / ?q\<bar>"
    by (rule round_even_nearest)
  then have "\<bar>of_int (round_even (x / ?q)) - x / ?q\<bar> * ?q \<le> \<bar>of_int M - x / ?q\<bar> * ?q"
    using q by (simp add: mult_right_mono)
  then show ?thesis unfolding a b using q by (simp add: abs_mult)
qed

lemma rnd_nearest:
  assumes "representable r"
  shows "\<bar>rnd x - x\<bar> \<le> \<bar>r - x\<bar>"
proof (cases "x = 0")
  case True
  then show ?thesis by (simp add: rnd_def)
next
  case False
  from assms obtain m k where m: "\<bar>m\<bar> \<le> 2 ^ 53" and k: "- 1074 \<le> k"
    and r: "r = of_int m * 2 powi k"
    unfolding representable_def by blast
  let ?e = "expo x"
  show ?thesis
  proof (cases "?e - 52 \<le> k")
    case True
    then have "(2::real) powi k = 2 powi (k - (?e - 52)) * 2 powi (?e - 52)"
      by (simp add: power_int_add [symmetric])
    also have "(2::real) powi (k - (?e - 52)) = of_int (2 ^ nat (k - (?e - 52)))"
      using True by (simp add: power_int_nonneg_exp)
    finally have "r = of_int (m * 2 ^ nat (k - (?e - 52))) * ulp x"
      unfolding r ulp_def by simp
    then show ?thesis
      using rnd_multiple [OF \<open>x \<noteq> 0\<close>, of "m * 2 ^ nat (k - (?e - 52))"] by (simp only:)
  next
    case False
    with k have n: "- 1022 < ?e" by simp
    from False have "53 + k \<le> ?e" by simp
    then have "(2::real) powi (53 + k) \<le> 2 powi ?e"
      by (simp add: power_int_increasing)
    moreover have "\<bar>r\<bar> \<le> 2 powi (53 + k)"
    proof -
      have "\<bar>r\<bar> = \<bar>of_int m\<bar> * 2 powi k" unfolding r by (simp add: abs_mult)
      also have "\<dots> \<le> 2 ^ 53 * 2 powi k"
      proof (rule mult_right_mono)
        from m have "real_of_int \<bar>m\<bar> \<le> real_of_int (2 ^ 53)" by (simp only: of_int_le_iff)
        then show "\<bar>real_of_int m\<bar> \<le> 2 ^ 53" by simp
      qed simp
      also have "\<dots> = 2 powi (53 + k)" by (simp add: power_int_add)
      finally show ?thesis .
    qed
    ultimately have rs: "\<bar>r\<bar> \<le> 2 powi ?e" by simp
    have xl: "2 powi ?e \<le> \<bar>x\<bar>" using \<open>x \<noteq> 0\<close> n by (rule expo_normal)
    have "sgn x * 2 powi ?e = of_int (sgn' * 2 ^ 52) * ulp x" if "sgn' = (if 0 < x then 1 else - 1)" for sgn' :: int
    proof -
      have "(2::real) powi (52 + (?e - 52)) = 2 powi 52 * 2 powi (?e - 52)"
        by (rule power_int_add) simp
      then have "(2::real) powi ?e = 2 ^ 52 * 2 powi (?e - 52)" by simp
      then show ?thesis using that \<open>x \<noteq> 0\<close> by (simp add: ulp_def sgn_if)
    qed
    then have "\<bar>rnd x - x\<bar> \<le> \<bar>sgn x * 2 powi ?e - x\<bar>"
      using rnd_multiple [OF \<open>x \<noteq> 0\<close>] by metis
    also have "\<dots> = \<bar>x\<bar> - 2 powi ?e"
      using xl \<open>x \<noteq> 0\<close> by (simp add: sgn_if abs_if split: if_splits)
    also have "\<dots> \<le> \<bar>r - x\<bar>" using rs by linarith
    finally show ?thesis .
  qed
qed

lemma rnd_fix: "representable r \<Longrightarrow> rnd r = r"
  using rnd_nearest [of r r] by simp

lemma rnd_between:
  assumes "representable lo" and "representable hi" and "lo \<le> x" and "x \<le> hi"
  shows "lo \<le> rnd x \<and> rnd x \<le> hi"
  using rnd_nearest [OF assms(1), of x] rnd_nearest [OF assms(2), of x] assms(3,4)
  by linarith

lemma rnd_minus: "rnd (- x) = - rnd x"
proof (cases "x = 0")
  case True
  then show ?thesis by (simp add: rnd_def)
next
  case False
  have u: "ulp (- x) = ulp x" by (simp add: ulp_def expo_def)
  have "round_even (- y) = - round_even y" for y
  proof (cases "y = of_int \<lfloor>y\<rfloor>")
    case True
    then obtain n where "y = of_int n" ..
    then show ?thesis by (simp add: round_even_def)
  next
    case False
    then have "y \<notin> \<int>" by (metis Ints_cases floor_of_int)
    then have f: "\<lfloor>- y\<rfloor> = - \<lfloor>y\<rfloor> - 1"
      by (simp add: floor_minus ceiling_altdef Ints_def) (metis Ints_of_int \<open>y \<notin> \<int>\<close>)
    show ?thesis
      unfolding round_even_def Let_def f by (auto simp add: field_simps)
  qed
  then show ?thesis using False u by (simp add: rnd_def)
qed

text \<open>The rounding of a given number, from the binade it lies in.\<close>

lemma rnd_eval:
  assumes "2 powi e \<le> \<bar>x\<bar>" and "\<bar>x\<bar> < 2 powi (e + 1)" and "- 1022 \<le> e"
    and "\<bar>x / 2 powi (e - 52) - of_int n\<bar> < 1 / 2"
  shows "rnd x = of_int n * 2 powi (e - 52)"
proof -
  have "(0::real) < 2 powi e" by simp
  with assms(1) have p: "0 < \<bar>x\<bar>" by linarith
  then have nz: "x \<noteq> 0" by simp
  have a: "2 powr (of_int e) \<le> \<bar>x\<bar>"
    using assms(1) by (simp add: powr_real_of_int')
  have "2 powr (real_of_int (e + 1)) = 2 powi (e + 1)"
    by (rule powr_real_of_int') simp_all
  then have b: "\<bar>x\<bar> < 2 powr (of_int e + 1)"
    using assms(2) by simp
  have "\<lfloor>log 2 \<bar>x\<bar>\<rfloor> = e"
    using a b p by (simp add: floor_log_eq_powr_iff)
  then have "expo x = e" using assms(3) by (simp add: expo_def)
  then have u: "ulp x = 2 powi (e - 52)" by (simp add: ulp_def)
  from assms(4) have "round_even (x / 2 powi (e - 52)) = n" by (rule round_even_unique)
  then show ?thesis using nz u by (simp add: rnd_def)
qed

lemma representable_nat: "n < 2 ^ 32 \<Longrightarrow> representable (real n)"
proof -
  assume "n < 2 ^ 32"
  then have "\<bar>int n\<bar> \<le> 2 ^ 53" by simp
  moreover have "real n = of_int (int n) * 2 powi 0" by simp
  ultimately show ?thesis unfolding representable_def by (metis neg_numeral_le_zero)
qed

lemma representable_neg: "representable r \<Longrightarrow> representable (- r)"
proof -
  assume "representable r"
  then obtain m k where "\<bar>m\<bar> \<le> 2 ^ 53" "- 1074 \<le> k" "r = of_int m * 2 powi k"
    unfolding representable_def by blast
  then have "\<bar>- m\<bar> \<le> 2 ^ 53 \<and> - 1074 \<le> k \<and> - r = of_int (- m) * 2 powi k" by simp
  then show ?thesis unfolding representable_def by blast
qed

lemma representable_half: "representable (1 / 2)"
proof -
  have "\<bar>1::int\<bar> \<le> 2 ^ 53 \<and> (- 1074::int) \<le> - 1 \<and> (1 / 2 :: real) = of_int 1 * 2 powi (- 1)"
    by (simp add: power_int_minus)
  then show ?thesis unfolding representable_def by blast
qed

lemma representable_nat_half: "n < 2 ^ 32 \<Longrightarrow> representable (real n + 1 / 2)"
proof -
  assume "n < 2 ^ 32"
  then have "\<bar>2 * int n + 1\<bar> \<le> 2 ^ 53" by simp
  moreover have "real n + 1 / 2 = of_int (2 * int n + 1) * 2 powi (- 1)"
    by (simp add: power_int_minus field_simps)
  moreover have "(- 1074::int) \<le> - 1" by simp
  ultimately show ?thesis unfolding representable_def by blast
qed

text \<open>
  A size below \<open>2^32\<close> times \<open>1\<close> or \<open>-1\<close> is that size, up to its sign; times a
  factor of at most \<open>2^-33\<close> it is at most a half; and the sum of a size and of at most a
  half, cut to a whole number, is the size.
\<close>

lemma small_prod:
  assumes "n < 2 ^ 32" and "\<bar>c\<bar> \<le> 1 / 2 ^ 33"
  shows "\<bar>fmul (real n) c\<bar> \<le> 1 / 2"
proof -
  from assms(1) have "real n \<le> 2 ^ 32" by (metis less_imp_le of_nat_le_iff of_nat_numeral of_nat_power)
  then have "real n * \<bar>c\<bar> \<le> 2 ^ 32 * (1 / 2 ^ 33)"
    using assms(2) by (intro mult_mono) simp_all
  then have "\<bar>real n * c\<bar> \<le> 1 / 2" by (simp add: abs_mult)
  then have "- (1 / 2) \<le> real n * c" and "real n * c \<le> 1 / 2" by linarith+
  then have "- (1 / 2) \<le> rnd (real n * c) \<and> rnd (real n * c) \<le> 1 / 2"
    by (rule rnd_between [OF representable_neg [OF representable_half] representable_half])
  then show ?thesis unfolding fmul_def by linarith
qed

lemma unit_prod:
  assumes "n < 2 ^ 32" and "\<bar>s\<bar> = 1"
  shows "\<bar>fmul (real n) s\<bar> = real n"
proof -
  from assms(2) consider "s = 1" | "s = - 1" by (auto simp: abs_if split: if_splits)
  then show ?thesis
  proof cases
    case 1
    then show ?thesis
      unfolding fmul_def using rnd_fix [OF representable_nat [OF assms(1)]] by simp
  next
    case 2
    then show ?thesis
      unfolding fmul_def
      using rnd_fix [OF representable_neg [OF representable_nat [OF assms(1)]]] by simp
  qed
qed

lemma near_sum:
  assumes "n < 2 ^ 32" and "0 \<le> t" and "t \<le> 1 / 2"
  shows "to_unsigned_long (fadd t (real n)) = n" and "to_unsigned_long (fadd (real n) t) = n"
proof -
  have "real n \<le> t + real n" and "t + real n \<le> real n + 1 / 2" using assms(2,3) by simp_all
  with rnd_between [OF representable_nat [OF assms(1)] representable_nat_half [OF assms(1)]]
  have b: "real n \<le> rnd (t + real n)" "rnd (t + real n) \<le> real n + 1 / 2" by blast+
  then have f: "\<lfloor>rnd (t + real n)\<rfloor> = int n" by linarith
  from assms(1) have "int n < 2 ^ 32" by (metis of_nat_less_iff of_nat_numeral of_nat_power)
  with b f show "to_unsigned_long (fadd t (real n)) = n"
    by (simp add: to_unsigned_long_def fadd_def)
  then show "to_unsigned_long (fadd (real n) t) = n"
    by (simp add: fadd_def add.commute)
qed

section \<open>Properties of the canvas calls\<close>

subsection \<open>Quarter turns\<close>

text \<open>At a multiple of 90 degrees one of the exact \<open>cos\<close> and \<open>sin\<close> is \<open>0\<close> and the
  other is \<open>1\<close> or \<open>-1\<close>.\<close>

lemma quarter_turns: "real_of_int (90 * k) * pi / 180 = of_int k * (pi / 2)"
  by simp

lemma even_turn:
  assumes "even k"
  shows "sin (real_of_int (90 * k) * pi / 180) = 0"
    and "\<bar>cos (real_of_int (90 * k) * pi / 180)\<bar> = 1"
proof -
  show s: "sin (real_of_int (90 * k) * pi / 180) = 0"
    unfolding quarter_turns sin_zero_iff_int using assms by blast
  then show "\<bar>cos (real_of_int (90 * k) * pi / 180)\<bar> = 1"
    by (rule sin_zero_abs_cos_one)
qed

lemma odd_turn:
  assumes "odd k"
  shows "cos (real_of_int (90 * k) * pi / 180) = 0"
    and "\<bar>sin (real_of_int (90 * k) * pi / 180)\<bar> = 1"
proof -
  let ?x = "real_of_int (90 * k) * pi / 180"
  show c: "cos ?x = 0"
    unfolding quarter_turns cos_zero_iff_int using assms by blast
  have "(sin ?x)\<^sup>2 + (cos ?x)\<^sup>2 = 1" by (rule sin_cos_squared_add)
  with c have "(sin ?x)\<^sup>2 = 1" by simp
  then have "sin ?x = 1 \<or> sin ?x = - 1" by (simp only: power2_eq_1_iff)
  then show "\<bar>sin ?x\<bar> = 1" by auto
qed

lemma to_unsigned_long_nat: "n < 2 ^ 32 \<Longrightarrow> to_unsigned_long (real n) = n"
proof -
  assume "n < 2 ^ 32"
  then have "int n < 2 ^ 32" by (metis of_nat_less_iff of_nat_numeral of_nat_power)
  then show ?thesis by (simp add: to_unsigned_long_def)
qed

lemma quarter_turn_exact:
  shows "\<lceil>\<bar>real (width img) * cos (real_of_int (90 * k) * pi / 180)\<bar> +
          \<bar>real (height img) * sin (real_of_int (90 * k) * pi / 180)\<bar>\<rceil> =
         int (if even k then width img else height img)"
    and "\<lceil>\<bar>real (height img) * cos (real_of_int (90 * k) * pi / 180)\<bar> +
          \<bar>real (width img) * sin (real_of_int (90 * k) * pi / 180)\<bar>\<rceil> =
         int (if even k then height img else width img)"
proof -
  let ?x = "real_of_int (90 * k) * pi / 180"
  have w: "\<bar>real (width img) * cos ?x\<bar> + \<bar>real (height img) * sin ?x\<bar> =
      real (if even k then width img else height img)"
    using even_turn [of k] odd_turn [of k] by (cases "even k") (simp_all add: abs_mult)
  have h: "\<bar>real (height img) * cos ?x\<bar> + \<bar>real (width img) * sin ?x\<bar> =
      real (if even k then height img else width img)"
    using even_turn [of k] odd_turn [of k] by (cases "even k") (simp_all add: abs_mult)
  show "\<lceil>\<bar>real (width img) * cos ?x\<bar> + \<bar>real (height img) * sin ?x\<bar>\<rceil> =
         int (if even k then width img else height img)"
    unfolding w by (rule ceiling_of_nat)
  show "\<lceil>\<bar>real (height img) * cos ?x\<bar> + \<bar>real (width img) * sin ?x\<bar>\<rceil> =
         int (if even k then height img else width img)"
    unfolding h by (rule ceiling_of_nat)
qed

text \<open>The angles that the code computes for the rotations of the buttons.\<close>

lemma rad_minus: "rad (- r) = - rad r"
  by (simp add: rad_def fdiv_def fmul_def rnd_minus)

lemma rad_0: "rad 0 = 0"
  by (simp add: rad_def fdiv_def fmul_def rnd_def)

lemma rad_90: "rad 90 = 884279719003555 / 562949953421312"
proof -
  have f: "fmul 90 Math_PI = 4974073419394997 / 17592186044416"
    unfolding fmul_def Math_PI_def
    using rnd_eval [of 8 "90 * (884279719003555 / 281474976710656)" 4974073419394997]
    by (simp add: power_int_minus)
  have "rad 90 = rnd (fmul 90 Math_PI / 180)" by (simp add: rad_def fdiv_def)
  also have "\<dots> = rnd ((4974073419394997 / 17592186044416) / 180)" by (simp only: f)
  also have "\<dots> = 884279719003555 / 562949953421312"
    using rnd_eval [of 0 "(4974073419394997 / 17592186044416) / 180" 7074237752028440]
    by (simp add: power_int_minus)
  finally show ?thesis .
qed

lemma rad_180: "rad 180 = 884279719003555 / 281474976710656"
proof -
  have f: "fmul 180 Math_PI = 4974073419394997 / 8796093022208"
    unfolding fmul_def Math_PI_def
    using rnd_eval [of 9 "180 * (884279719003555 / 281474976710656)" 4974073419394997]
    by (simp add: power_int_minus)
  have "rad 180 = rnd (fmul 180 Math_PI / 180)" by (simp add: rad_def fdiv_def)
  also have "\<dots> = rnd ((4974073419394997 / 8796093022208) / 180)" by (simp only: f)
  also have "\<dots> = 884279719003555 / 281474976710656"
    using rnd_eval [of 1 "(4974073419394997 / 8796093022208) / 180" 7074237752028440]
    by (simp add: power_int_minus)
  finally show ?thesis .
qed

lemma rad_270: "rad 270 = 2652839157010665 / 562949953421312"
proof -
  have f: "fmul 270 Math_PI = 7461110129092495 / 8796093022208"
    unfolding fmul_def Math_PI_def
    using rnd_eval [of 9 "270 * (884279719003555 / 281474976710656)" 7461110129092495]
    by (simp add: power_int_minus)
  have "rad 270 = rnd (fmul 270 Math_PI / 180)" by (simp add: rad_def fdiv_def)
  also have "\<dots> = rnd ((7461110129092495 / 8796093022208) / 180)" by (simp only: f)
  also have "\<dots> = 2652839157010665 / 562949953421312"
    using rnd_eval [of 2 "(7461110129092495 / 8796093022208) / 180" 5305678314021330]
    by (simp add: power_int_minus)
  finally show ?thesis .
qed

text \<open>
  The buttons only produce the rotations from \<open>-270\<close> to \<open>270\<close> degrees, and at each of
  them the values of \<open>Math.cos\<close> and \<open>Math.sin\<close> are as accurate as the size of the canvas
  needs.
\<close>

lemma buttons_keep_quarter_turns:
  assumes "buttonRotation (tempRotation st)"
  shows "buttonRotation (tempRotation (rotateMinus90 st))"
    and "buttonRotation (tempRotation (rotatePlus90 st))"
  using assms
  by (auto simp add: buttonRotation_def rotateMinus90_def rotatePlus90_def js_rem_def)

lemma exampleMath_accurate:
  assumes "buttonRotation r"
  shows "accurateAt exampleMath r"
proof -
  have e0: "cos (real_of_int 0 * pi / 180) = 1" "sin (real_of_int 0 * pi / 180) = 0" by simp_all
  note o1 = odd_turn [of 1] odd_turn [of "- 1"] odd_turn [of 3] odd_turn [of "- 3"]
  note e2 = even_turn [of 2] even_turn [of "- 2"]
  note r = rad_0 rad_90 rad_180 rad_270 rad_minus
  from assms consider "r = 0" | "r = 90" | "r = - 90" | "r = 180" | "r = - 180"
    | "r = 270" | "r = - 270"
    by (auto simp add: buttonRotation_def)
  then show ?thesis
  proof cases
    case 1
    then show ?thesis by (simp add: accurateAt_def Let_def r exampleMath_def exampleCos_def exampleSin_def)
  next
    case 2
    with o1(1,2) show ?thesis
      by (simp add: accurateAt_def Let_def r exampleMath_def exampleCos_def exampleSin_def)
  next
    case 3
    with o1(3,4) show ?thesis
      by (simp add: accurateAt_def Let_def r exampleMath_def exampleCos_def exampleSin_def)
  next
    case 4
    with e2(1,2) show ?thesis
      by (simp add: accurateAt_def Let_def r exampleMath_def exampleCos_def exampleSin_def)
  next
    case 5
    with e2(3,4) show ?thesis
      by (simp add: accurateAt_def Let_def r exampleMath_def exampleCos_def exampleSin_def)
  next
    case 6
    with o1(5,6) show ?thesis
      by (simp add: accurateAt_def Let_def r exampleMath_def exampleCos_def exampleSin_def)
  next
    case 7
    with o1(7,8) show ?thesis
      by (simp add: accurateAt_def Let_def r exampleMath_def exampleCos_def exampleSin_def)
  qed
qed

lemma BillScanner_onload_size:
  "width (BillScanner_onload m img r b) = to_unsigned_long (newWidth m img r) \<and>
   height (BillScanner_onload m img r b) = to_unsigned_long (newHeight m img r)"
  by (simp add: BillScanner_onload_def Let_def setWidth_def setHeight_def setFilter_def
      translate_def rotate_c_def drawImage_def draw_def createCanvas_def)

lemma accurate_even_turn:
  assumes "accurateAt m (90 * k)" and "even k"
  shows "\<bar>Math_cos m (rad (90 * k))\<bar> = 1" and "\<bar>Math_sin m (rad (90 * k))\<bar> \<le> 1 / 2 ^ 33"
  using assms(1) even_turn [OF assms(2)] by (simp_all add: accurateAt_def Let_def)

lemma accurate_odd_turn:
  assumes "accurateAt m (90 * k)" and "odd k"
  shows "\<bar>Math_sin m (rad (90 * k))\<bar> = 1" and "\<bar>Math_cos m (rad (90 * k))\<bar> \<le> 1 / 2 ^ 33"
  using assms(1) odd_turn [OF assms(2)] by (simp_all add: accurateAt_def Let_def)

lemma turned_sum:
  assumes "a < 2 ^ 32" and "b < 2 ^ 32" and "\<bar>u\<bar> = 1" and "\<bar>v\<bar> \<le> 1 / 2 ^ 33"
  shows "to_unsigned_long (fadd \<bar>fmul (real a) u\<bar> \<bar>fmul (real b) v\<bar>) = a"
    and "to_unsigned_long (fadd \<bar>fmul (real b) v\<bar> \<bar>fmul (real a) u\<bar>) = a"
proof -
  have u: "\<bar>fmul (real a) u\<bar> = real a" using assms(1,3) by (rule unit_prod)
  have v: "\<bar>fmul (real b) v\<bar> \<le> 1 / 2" using assms(2,4) by (rule small_prod)
  have v0: "0 \<le> \<bar>fmul (real b) v\<bar>" by simp
  show "to_unsigned_long (fadd \<bar>fmul (real a) u\<bar> \<bar>fmul (real b) v\<bar>) = a"
    unfolding u using assms(1) v0 v by (rule near_sum(2))
  show "to_unsigned_long (fadd \<bar>fmul (real b) v\<bar> \<bar>fmul (real a) u\<bar>) = a"
    unfolding u using assms(1) v0 v by (rule near_sum(1))
qed

lemma quarter_turn_size:
  assumes "width img < 2 ^ 32" and "height img < 2 ^ 32" and "accurateAt m (90 * k)"
  shows "width (BillScanner_onload m img (90 * k) b) = (if even k then width img else height img)"
    and "height (BillScanner_onload m img (90 * k) b) = (if even k then height img else width img)"
proof -
  note s = BillScanner_onload_size [of m img "90 * k" b]
  show "width (BillScanner_onload m img (90 * k) b) = (if even k then width img else height img)"
  proof (cases "even k")
    case True
    from turned_sum(1) [OF assms(1) assms(2) accurate_even_turn [OF assms(3) True]]
    show ?thesis using s True by (simp add: newWidth_def Let_def)
  next
    case False
    from turned_sum(2) [OF assms(2) assms(1) accurate_odd_turn [OF assms(3) False]]
    show ?thesis using s False by (simp add: newWidth_def Let_def)
  qed
  show "height (BillScanner_onload m img (90 * k) b) = (if even k then height img else width img)"
  proof (cases "even k")
    case True
    from turned_sum(1) [OF assms(2) assms(1) accurate_even_turn [OF assms(3) True]]
    show ?thesis using s True by (simp add: newHeight_def Let_def)
  next
    case False
    from turned_sum(2) [OF assms(1) assms(2) accurate_odd_turn [OF assms(3) False]]
    show ?thesis using s False by (simp add: newHeight_def Let_def)
  qed
qed

text \<open>
  Claim C2.  For a \<open>w\<close> by \<open>h\<close> image and a rotation that is a multiple of 90 degrees
  (negative ones too), the canvas that \<open>handleSaveChanges\<close> draws on is
  \<open>\<lceil>|w cos \<theta>| + |h sin \<theta>|\<rceil>\<close> wide and \<open>\<lceil>|h cos \<theta>| + |w sin \<theta>|\<rceil>\<close> high, with
  \<open>\<theta>\<close> the rotation in radians and the exact cosine and sine; at 90 degrees that is
  \<open>h\<close> by \<open>w\<close> and at 180 degrees \<open>w\<close> by \<open>h\<close>.  The code computes the two sums in
  doubles, from \<open>Math.cos\<close> and \<open>Math.sin\<close> of the angle it computed, and does not round
  them up: a sum may lie a little above the whole number, and assigning it to the canvas
  drops the fraction.  This needs \<open>Math.cos\<close> and \<open>Math.sin\<close> to be accurate at the
  rotation (\<open>accurateAt\<close>), as they are at the rotations of the buttons; the sizes of
  an image are \<open>unsigned long\<close>, below \<open>2^32\<close>.
\<close>

theorem rotated_canvas_size:
  assumes "tempRot = 90 * k" and "width img < 2 ^ 32" and "height img < 2 ^ 32"
    and "accurateAt m tempRot"
  shows "int (width (BillScanner_onload m img tempRot b)) =
           \<lceil>\<bar>real (width img) * cos (real_of_int tempRot * pi / 180)\<bar> +
            \<bar>real (height img) * sin (real_of_int tempRot * pi / 180)\<bar>\<rceil> \<and>
         int (height (BillScanner_onload m img tempRot b)) =
           \<lceil>\<bar>real (height img) * cos (real_of_int tempRot * pi / 180)\<bar> +
            \<bar>real (width img) * sin (real_of_int tempRot * pi / 180)\<bar>\<rceil> \<and>
         (tempRot = 90 \<longrightarrow>
            width (BillScanner_onload m img tempRot b) = height img \<and>
            height (BillScanner_onload m img tempRot b) = width img) \<and>
         (tempRot = 180 \<longrightarrow>
            width (BillScanner_onload m img tempRot b) = width img \<and>
            height (BillScanner_onload m img tempRot b) = height img)"
proof -
  from assms(4) have a: "accurateAt m (90 * k)" unfolding assms(1) .
  note q = quarter_turn_size [OF assms(2) assms(3) a] quarter_turn_exact
  have k1: "tempRot = 90 \<Longrightarrow> odd k" using assms(1) by presburger
  have k2: "tempRot = 180 \<Longrightarrow> even k" using assms(1) by presburger
  show ?thesis
    unfolding assms(1) q using k1 k2 assms(1) by simp
qed

theorem rotated_canvas_size_witness:
  "(90::int) = 90 * 1 \<and> (180::int) = 90 * 2 \<and>
   width exampleImage < 2 ^ 32 \<and> height exampleImage < 2 ^ 32 \<and>
   accurateAt exampleMath 90 \<and> accurateAt exampleMath 180 \<and>
   width (BillScanner_onload exampleMath exampleImage 90 1) = 200 \<and>
   height (BillScanner_onload exampleMath exampleImage 90 1) = 100 \<and>
   width (BillScanner_onload exampleMath exampleImage 180 1) = 100 \<and>
   height (BillScanner_onload exampleMath exampleImage 180 1) = 200"
proof -
  have w: "width exampleImage < 2 ^ 32" by (simp add: exampleImage_def)
  have h: "height exampleImage < 2 ^ 32" by (simp add: exampleImage_def)
  have a: "(90::int) = 90 * 1" by simp
  have b: "(180::int) = 90 * 2" by simp
  have c: "accurateAt exampleMath 90"
    by (rule exampleMath_accurate) (simp add: buttonRotation_def)
  have d: "accurateAt exampleMath 180"
    by (rule exampleMath_accurate) (simp add: buttonRotation_def)
  from rotated_canvas_size [OF a w h c, of 1] rotated_canvas_size [OF b w h d, of 1] w h c d
  show ?thesis by (simp add: exampleImage_def)
qed

text \<open>
  At 90 degrees on a 100 by 200 image the height that the code computes is not whole:
  it is \<open>100.00000000000001\<close>, whose ceiling is 101, and the canvas is 100 high.
\<close>

lemma newHeight_not_whole:
  "newHeight exampleMath exampleImage 90 = 100 + 1 / 2 ^ 46 \<and>
   \<lceil>newHeight exampleMath exampleImage 90\<rceil> = 101 \<and>
   height (BillScanner_onload exampleMath exampleImage 90 b) = 100"
proof -
  have c: "Math_cos exampleMath (rad 90) = 4967757600021511 / 81129638414606681695789005144064"
    by (simp add: rad_90 exampleMath_def exampleCos_def)
  have s: "Math_sin exampleMath (rad 90) = 1"
    by (simp add: rad_90 exampleMath_def exampleSin_def)
  have p: "fmul 200 (4967757600021511 / 81129638414606681695789005144064) = 7762121250033611 / 633825300114114700748351602688"
    unfolding fmul_def
    using rnd_eval [of "- 47" "200 * (4967757600021511 / 81129638414606681695789005144064)" 7762121250033611]
    by (simp add: power_int_minus)
  have q: "fmul 100 1 = 100"
    unfolding fmul_def using rnd_eval [of 6 100 7036874417766400]
    by (simp add: power_int_minus)
  have a: "fadd (7762121250033611 / 633825300114114700748351602688) 100 =
      7036874417766401 / 70368744177664"
    unfolding fadd_def
    using rnd_eval [of 6 "7762121250033611 / 633825300114114700748351602688 + 100" 7036874417766401]
    by (simp add: power_int_minus)
  have "newHeight exampleMath exampleImage 90 = 7036874417766401 / 70368744177664"
    unfolding newHeight_def Let_def c s by (simp add: exampleImage_def p q a)
  then have n: "newHeight exampleMath exampleImage 90 = 100 + 1 / 2 ^ 46" by simp
  have "(100::real) < 100 + 1 / 2 ^ 46" and "(100::real) + 1 / 2 ^ 46 \<le> 101" by simp_all
  then have ce: "\<lceil>(100::real) + 1 / 2 ^ 46\<rceil> = 101" by (simp add: ceiling_eq_iff)
  have fl: "\<lfloor>(100::real) + 1 / 2 ^ 46\<rfloor> = 100" by (simp add: floor_eq_iff)
  have "height (BillScanner_onload exampleMath exampleImage 90 b) = 100"
    using BillScanner_onload_size [of exampleMath exampleImage 90 b]
    unfolding n by (simp add: to_unsigned_long_def fl)
  moreover have "\<lceil>newHeight exampleMath exampleImage 90\<rceil> = 101" unfolding n by (rule ce)
  ultimately show ?thesis using n by blast
qed

subsection \<open>The text overlay\<close>

lemma canvas_calls [simp]:
  "width (setWidth v c) = to_unsigned_long v"
  "height (setWidth v c) = height c"
  "width (setHeight v c) = width c"
  "height (setHeight v c) = to_unsigned_long v"
  "drawn (setWidth v c) = []"
  "drawn (setHeight v c) = []"
  "ctx (setWidth v c) = defaultDrawState"
  "ctx (setHeight v c) = defaultDrawState"
  "width (draw d c) = width c"
  "height (draw d c) = height c"
  "ctx (draw d c) = ctx c"
  "drawn (draw d c) = drawn c @ [(d, ctx c)]"
  by (simp_all add: setWidth_def setHeight_def draw_def)

lemma context_setters [simp]:
  "width (setFont f c) = width c" "height (setFont f c) = height c"
  "drawn (setFont f c) = drawn c" "ctx (setFont f c) = (ctx c)\<lparr>font := f\<rparr>"
  "width (setFillStyle s c) = width c" "height (setFillStyle s c) = height c"
  "drawn (setFillStyle s c) = drawn c" "ctx (setFillStyle s c) = (ctx c)\<lparr>fillStyle := s\<rparr>"
  "width (setStrokeStyle s c) = width c" "height (setStrokeStyle s c) = height c"
  "drawn (setStrokeStyle s c) = drawn c" "ctx (setStrokeStyle s c) = (ctx c)\<lparr>strokeStyle := s\<rparr>"
  "width (setLineWidth v c) = width c" "height (setLineWidth v c) = height c"
  "drawn (setLineWidth v c) = drawn c" "ctx (setLineWidth v c) = (ctx c)\<lparr>lineWidth := v\<rparr>"
  "width (setTextAlign a c) = width c" "height (setTextAlign a c) = height c"
  "drawn (setTextAlign a c) = drawn c" "ctx (setTextAlign a c) = (ctx c)\<lparr>textAlign := a\<rparr>"
  "width (setTextBaseline b c) = width c" "height (setTextBaseline b c) = height c"
  "drawn (setTextBaseline b c) = drawn c"
  "ctx (setTextBaseline b c) = (ctx c)\<lparr>textBaseline := b\<rparr>"
  by (simp_all add: setFont_def setFillStyle_def setStrokeStyle_def setLineWidth_def
      setTextAlign_def setTextBaseline_def)

lemma dropWhile_all: "(\<forall>c\<in>set s. P c) \<Longrightarrow> dropWhile P s = []"
  by (induction s) simp_all

lemma trim_empty_iff: "trim s = [] \<longleftrightarrow> (\<forall>c\<in>set s. isWhiteSpace c)"
proof
  assume "\<forall>c\<in>set s. isWhiteSpace c"
  then show "trim s = []" by (simp add: trim_def dropWhile_all)
next
  assume "trim s = []"
  then have a: "\<forall>c\<in>set (dropWhile isWhiteSpace s). isWhiteSpace c"
    by (simp add: trim_def)
  have "dropWhile isWhiteSpace s = []"
  proof (rule ccontr)
    assume n: "dropWhile isWhiteSpace s \<noteq> []"
    then have "\<not> isWhiteSpace (hd (dropWhile isWhiteSpace s))" by (rule hd_dropWhile)
    moreover from n have "hd (dropWhile isWhiteSpace s) \<in> set (dropWhile isWhiteSpace s)"
      by (rule hd_in_set)
    ultimately show False using a by blast
  qed
  then show "\<forall>c\<in>set s. isWhiteSpace c" by simp
qed


lemma ImageGenerator_onload_text:
  assumes "trim (overlayText st) \<noteq> []"
  shows "drawn (ImageGenerator_onload img st) =
     [(DrawImage img 0 0, defaultDrawState),
      (StrokeText (overlayText st) (real (to_unsigned_long (real (width img))) / 2)
         (case textPosition st of
            Top \<Rightarrow> fontSize st
          | Middle \<Rightarrow> real (to_unsigned_long (real (height img))) / 2
          | Bottom \<Rightarrow> real (to_unsigned_long (real (height img))) - fontSize st),
       defaultDrawState\<lparr>font := Font (fontSize st) (fontFamily st),
         fillStyle := fontColor st, strokeStyle := strokeColor st,
         lineWidth := fontSize st / 20, textAlign := AlignCenter,
         textBaseline := (case textPosition st of
            Top \<Rightarrow> BaselineTop | Middle \<Rightarrow> BaselineMiddle | Bottom \<Rightarrow> BaselineBottom)\<rparr>),
      (FillText (overlayText st) (real (to_unsigned_long (real (width img))) / 2)
         (case textPosition st of
            Top \<Rightarrow> fontSize st
          | Middle \<Rightarrow> real (to_unsigned_long (real (height img))) / 2
          | Bottom \<Rightarrow> real (to_unsigned_long (real (height img))) - fontSize st),
       defaultDrawState\<lparr>font := Font (fontSize st) (fontFamily st),
         fillStyle := fontColor st, strokeStyle := strokeColor st,
         lineWidth := fontSize st / 20, textAlign := AlignCenter,
         textBaseline := (case textPosition st of
            Top \<Rightarrow> BaselineTop | Middle \<Rightarrow> BaselineMiddle | Bottom \<Rightarrow> BaselineBottom)\<rparr>)]"
  using assms
  by (cases "textPosition st")
     (simp_all add: ImageGenerator_onload_def Let_def drawImage_def strokeText_def fillText_def)



text \<open>
  Claim C7.  For every overlay with a text to draw, one that is not empty (in the sense
  of the specification, where the empty or white-space text is the other case: a text
  that holds a character that is not white space), three calls are made, in this order:
  the source image is drawn at the origin, then the text is stroked and then filled,
  both at \<open>x = width / 2\<close> and at the same \<open>y\<close>, which is \<open>fontSize\<close> with the
  baseline \<open>top\<close> for the anchor \<open>top\<close>, \<open>height - fontSize\<close> with the baseline
  \<open>bottom\<close> for \<open>bottom\<close>, and \<open>height / 2\<close> with the baseline \<open>middle\<close> for
  \<open>middle\<close>; the text is aligned at its centre and the line width is
  \<open>fontSize / 20\<close>.  The text \<open>HI\<close> at the top, 64 pixels high, on a 500 by 500 image
  is at \<open>x = 250\<close>, \<open>y = 64\<close>.
\<close>

theorem overlay_text_placement:
  assumes "\<exists>c\<in>set (overlayText st). \<not> isWhiteSpace c"
    and "width img < 2 ^ 32" and "height img < 2 ^ 32"
  shows "drawn (ImageGenerator_onload img st) =
     [(DrawImage img 0 0, defaultDrawState),
      (StrokeText (overlayText st) (real (width img) / 2)
         (case textPosition st of
            Top \<Rightarrow> fontSize st
          | Middle \<Rightarrow> real (height img) / 2
          | Bottom \<Rightarrow> real (height img) - fontSize st),
       defaultDrawState\<lparr>font := Font (fontSize st) (fontFamily st),
         fillStyle := fontColor st, strokeStyle := strokeColor st,
         lineWidth := fontSize st / 20, textAlign := AlignCenter,
         textBaseline := (case textPosition st of
            Top \<Rightarrow> BaselineTop | Middle \<Rightarrow> BaselineMiddle | Bottom \<Rightarrow> BaselineBottom)\<rparr>),
      (FillText (overlayText st) (real (width img) / 2)
         (case textPosition st of
            Top \<Rightarrow> fontSize st
          | Middle \<Rightarrow> real (height img) / 2
          | Bottom \<Rightarrow> real (height img) - fontSize st),
       defaultDrawState\<lparr>font := Font (fontSize st) (fontFamily st),
         fillStyle := fontColor st, strokeStyle := strokeColor st,
         lineWidth := fontSize st / 20, textAlign := AlignCenter,
         textBaseline := (case textPosition st of
            Top \<Rightarrow> BaselineTop | Middle \<Rightarrow> BaselineMiddle | Bottom \<Rightarrow> BaselineBottom)\<rparr>)]"
proof -
  from assms(1) have "trim (overlayText st) \<noteq> []" by (simp add: trim_empty_iff)
  note t = ImageGenerator_onload_text [OF this, of img]
  have w: "to_unsigned_long (real (width img)) = width img"
    using assms(2) by (rule to_unsigned_long_nat)
  have h: "to_unsigned_long (real (height img)) = height img"
    using assms(3) by (rule to_unsigned_long_nat)
  from t show ?thesis unfolding w h .
qed

theorem overlay_text_placement_witness:
  "overlayText exampleOverlay = ''HI'' \<and> \<not> isWhiteSpace CHR ''H'' \<and>
   width squareImage < 2 ^ 32 \<and> height squareImage < 2 ^ 32 \<and>
   drawn (ImageGenerator_onload squareImage exampleOverlay) =
     [(DrawImage squareImage 0 0, defaultDrawState),
      (StrokeText ''HI'' 250 64,
       defaultDrawState\<lparr>font := Font 64 ''Impact'', fillStyle := ''#FFFFFF'',
         strokeStyle := ''#000000'', lineWidth := 16 / 5, textAlign := AlignCenter,
         textBaseline := BaselineTop\<rparr>),
      (FillText ''HI'' 250 64,
       defaultDrawState\<lparr>font := Font 64 ''Impact'', fillStyle := ''#FFFFFF'',
         strokeStyle := ''#000000'', lineWidth := 16 / 5, textAlign := AlignCenter,
         textBaseline := BaselineTop\<rparr>)]"
proof -
  have h1: "\<exists>c\<in>set (overlayText exampleOverlay). \<not> isWhiteSpace c"
    by (simp add: exampleOverlay_def isWhiteSpace_def)
  have h2: "width squareImage < 2 ^ 32" by (simp add: squareImage_def)
  have h3: "height squareImage < 2 ^ 32" by (simp add: squareImage_def)
  have h4: "\<not> isWhiteSpace CHR ''H''" by (simp add: isWhiteSpace_def)
  from overlay_text_placement [OF h1 h2 h3] h2 h3 h4 show ?thesis
    by (simp add: exampleOverlay_def squareImage_def)
qed

subsection \<open>A missing source\<close>

text \<open>
  Claim C8 reads: a render operation whose source image is absent or not decoded signals
  \<open>InvalidInputError\<close> instead of doing nothing.  With no source image, both
  \<open>handleSaveChanges\<close> return without an error.
\<close>

theorem absent_source_not_signalled:
  "originalImage (exampleState\<lparr>originalImage := None\<rparr>) = None \<and>
   BillScanner_handleSaveChanges exampleBrowser (exampleState\<lparr>originalImage := None\<rparr>) \<noteq>
     Inl InvalidInputError \<and>
   ed_originalImage exampleEditor = None \<and>
   ImageEditor_handleSaveChanges exampleBrowser exampleEditor \<noteq> Inl InvalidInputError"
  by (simp add: BillScanner_handleSaveChanges_def ImageEditor_handleSaveChanges_def
      exampleEditor_def)

text \<open>
  Claim C8, amended.  When the source image is \<open>null\<close> or empty, when it does not load,
  or when no 2D context is to be had, \<open>handleSaveChanges\<close> of the scanner and of the
  editor return normally and leave the state of their component as it was: no error is
  signalled.
\<close>

theorem missing_source_returns_silently:
  assumes "originalImage st = None \<or> originalImage st = Some [] \<or>
           (\<exists>url. originalImage st = Some url \<and> loadImage br url = None) \<or>
           \<not> getContext2d br"
    and "ed_originalImage est = None \<or> ed_originalImage est = Some [] \<or>
           (\<exists>url. ed_originalImage est = Some url \<and> loadImage br url = None) \<or>
           \<not> getContext2d br"
  shows "BillScanner_handleSaveChanges br st = Inr st \<and>
         ImageEditor_handleSaveChanges br est = Inr est"
proof
  show "BillScanner_handleSaveChanges br st = Inr st"
    using assms(1)
    by (auto simp add: BillScanner_handleSaveChanges_def split: option.split)
  show "ImageEditor_handleSaveChanges br est = Inr est"
    using assms(2)
    by (auto simp add: ImageEditor_handleSaveChanges_def split: option.split)
qed

theorem missing_source_returns_silently_witness:
  "originalImage (exampleState\<lparr>originalImage := None\<rparr>) = None \<and>
   ed_originalImage exampleEditor = None \<and>
   BillScanner_handleSaveChanges exampleBrowser (exampleState\<lparr>originalImage := None\<rparr>) =
     Inr (exampleState\<lparr>originalImage := None\<rparr>) \<and>
   ImageEditor_handleSaveChanges exampleBrowser exampleEditor = Inr exampleEditor"
proof -
  have a: "originalImage (exampleState\<lparr>originalImage := None\<rparr>) = None" by simp
  have b: "ed_originalImage exampleEditor = None" by (simp add: exampleEditor_def)
  from missing_source_returns_silently [of "exampleState\<lparr>originalImage := None\<rparr>" exampleBrowser exampleEditor]
    a b
  show ?thesis by simp
qed

subsection \<open>What the two editors ask of the canvas\<close>

text \<open>
  Each \<open>handleSaveChanges\<close> makes one drawing call.  The editor draws the image at the
  origin under the filter list \<open>contrast\<close>, \<open>saturate\<close>, in that order; the scanner draws
  it centred on the origin of a context that was moved to the middle of the canvas and
  rotated, under the filter \<open>brightness\<close>.  The pixels that result are the browser's.
\<close>

lemma ImageEditor_onload_calls:
  "drawn (ImageEditor_onload img c s) =
     [(DrawImage img 0 0, defaultDrawState\<lparr>filter_c := [Contrast c, Saturate s]\<rparr>)]"
  by (simp add: ImageEditor_onload_def Let_def setFilter_def drawImage_def)

lemma BillScanner_onload_calls:
  "drawn (BillScanner_onload m img r b) =
     [(DrawImage img (fdiv (- real (width img)) 2) (fdiv (- real (height img)) 2),
       defaultDrawState\<lparr>filter_c := [Brightness b],
         transform := [Translate (fdiv (real (width (BillScanner_onload m img r b))) 2)
                                 (fdiv (real (height (BillScanner_onload m img r b))) 2),
                       Rotate (rad r)]\<rparr>)]"
  by (simp add: BillScanner_onload_def Let_def setFilter_def translate_def rotate_c_def
      drawImage_def defaultDrawState_def)

end
